theory Spec2Isabelle
  imports Main
begin

section \<open>The database schema: values, columns, rows\<close>

text \<open>
  The executable part of the repository is a PostgreSQL schema (ten tables, one trigger
  function, six triggers) and a few React pages. This section embeds the DDL: a column is
  its name, type, NOT NULL flag, DEFAULT and CHECK; a row maps column names to values, with
  \<open>None\<close> for SQL NULL. INSERT and UPDATE are functions from a statement to either an
  error or the stored row. The schema embedded is the full one (tenants, platforms,
  scheduled_posts, automation_rules, ...); the smaller file \<open>supabase_schema.sql\<close>
  declares other tables, without CHECK constraints or triggers.

  PRIMARY KEY and UNIQUE uniqueness, REFERENCES and the row level security policies depend
  on the other rows and on the session; they can only refuse a statement, never change the
  row that is stored, and are not part of the row functions below. A PRIMARY KEY's implied
  NOT NULL is.
\<close>

datatype json =
    JNull
  | JBool bool
  | JNum int
  | JStr string
  | JArr "json list"
  | JObj "(string \<times> json) list"

datatype sql_type = UUID | VARCHAR nat | TEXT | TIMESTAMPTZ | BOOLEAN | JSONB | INTEGER | INET

datatype sql_value =
    VUuid string
  | VString string
  | VTimestamp int
  | VBool bool
  | VJson json
  | VInteger int
  | VInet string

datatype default_expr = DefaultValue sql_value | NOW | uuid_generate_v4

datatype sql_error =
    UndefinedTable string
  | UndefinedColumn string
  | DuplicateColumn string
  | DatatypeMismatch string
  | StringTooLong string
  | IntegerOutOfRange string
  | NotNullViolation string
  | CheckViolation string

record column_def =
  col_name :: string
  col_type :: sql_type
  col_not_null :: bool
  col_default :: "default_expr option"
  col_check_in :: "string list option"

record table_def =
  table_name :: string
  table_columns :: "column_def list"

type_synonym row = "string \<Rightarrow> sql_value option"

text \<open>Column declarations, written as the DDL writes them: a name and a type, then modifiers.\<close>

definition column :: "string \<Rightarrow> sql_type \<Rightarrow> column_def" where
  "column n t = \<lparr>col_name = n, col_type = t, col_not_null = False, col_default = None,
     col_check_in = None\<rparr>"

definition NOT_NULL :: "column_def \<Rightarrow> column_def" where
  "NOT_NULL c = c\<lparr>col_not_null := True\<rparr>"

definition PRIMARY_KEY :: "column_def \<Rightarrow> column_def" where
  "PRIMARY_KEY c = c\<lparr>col_not_null := True\<rparr>"

definition DEFAULT :: "default_expr \<Rightarrow> column_def \<Rightarrow> column_def" where
  "DEFAULT d c = c\<lparr>col_default := Some d\<rparr>"

definition CHECK_IN :: "string list \<Rightarrow> column_def \<Rightarrow> column_def" where
  "CHECK_IN vs c = c\<lparr>col_check_in := Some vs\<rparr>"

definition empty_object :: sql_value where
  "empty_object = VJson (JObj [])"

definition empty_array :: sql_value where
  "empty_array = VJson (JArr [])"

subsection \<open>The tables of the schema\<close>

definition tenants :: table_def where
  "tenants = \<lparr>table_name = ''tenants'', table_columns =
    [DEFAULT uuid_generate_v4 (PRIMARY_KEY (column ''id'' UUID)),
     NOT_NULL (column ''name'' (VARCHAR 100)),
     NOT_NULL (column ''slug'' (VARCHAR 50)),
     DEFAULT NOW (column ''created_at'' TIMESTAMPTZ),
     DEFAULT NOW (column ''updated_at'' TIMESTAMPTZ),
     DEFAULT (DefaultValue (VBool True)) (column ''is_active'' BOOLEAN),
     DEFAULT (DefaultValue empty_object) (column ''settings'' JSONB),
     DEFAULT (DefaultValue (VInteger 10)) (column ''max_users'' INTEGER),
     DEFAULT (DefaultValue (VInteger 50)) (column ''max_accounts'' INTEGER)]\<rparr>"

definition users :: table_def where
  "users = \<lparr>table_name = ''users'', table_columns =
    [DEFAULT uuid_generate_v4 (PRIMARY_KEY (column ''id'' UUID)),
     column ''tenant_id'' UUID,
     NOT_NULL (column ''email'' (VARCHAR 255)),
     NOT_NULL (column ''password_hash'' (VARCHAR 255)),
     column ''full_name'' (VARCHAR 100),
     CHECK_IN [''admin'', ''user'', ''viewer'']
       (DEFAULT (DefaultValue (VString ''user'')) (column ''role'' (VARCHAR 20))),
     DEFAULT (DefaultValue (VBool True)) (column ''is_active'' BOOLEAN),
     DEFAULT NOW (column ''created_at'' TIMESTAMPTZ),
     DEFAULT NOW (column ''updated_at'' TIMESTAMPTZ),
     column ''last_login'' TIMESTAMPTZ,
     DEFAULT (DefaultValue empty_object) (column ''settings'' JSONB)]\<rparr>"

definition platforms :: table_def where
  "platforms = \<lparr>table_name = ''platforms'', table_columns =
    [DEFAULT uuid_generate_v4 (PRIMARY_KEY (column ''id'' UUID)),
     NOT_NULL (column ''name'' (VARCHAR 50)),
     NOT_NULL (column ''display_name'' (VARCHAR 100)),
     column ''api_endpoint'' (VARCHAR 255),
     CHECK_IN [''oauth'', ''api_key'', ''token'']
       (DEFAULT (DefaultValue (VString ''oauth'')) (column ''auth_type'' (VARCHAR 20))),
     DEFAULT (DefaultValue (VBool True)) (column ''is_active'' BOOLEAN),
     DEFAULT (DefaultValue empty_object) (column ''config'' JSONB),
     DEFAULT NOW (column ''created_at'' TIMESTAMPTZ)]\<rparr>"

definition social_accounts :: table_def where
  "social_accounts = \<lparr>table_name = ''social_accounts'', table_columns =
    [DEFAULT uuid_generate_v4 (PRIMARY_KEY (column ''id'' UUID)),
     column ''tenant_id'' UUID,
     column ''user_id'' UUID,
     column ''platform_id'' UUID,
     NOT_NULL (column ''account_name'' (VARCHAR 100)),
     column ''account_handle'' (VARCHAR 100),
     column ''access_token'' TEXT,
     column ''refresh_token'' TEXT,
     column ''token_expires_at'' TIMESTAMPTZ,
     DEFAULT (DefaultValue (VBool True)) (column ''is_active'' BOOLEAN),
     DEFAULT (DefaultValue (VBool False)) (column ''is_verified'' BOOLEAN),
     column ''last_sync'' TIMESTAMPTZ,
     DEFAULT NOW (column ''created_at'' TIMESTAMPTZ),
     DEFAULT NOW (column ''updated_at'' TIMESTAMPTZ),
     DEFAULT (DefaultValue empty_object) (column ''metadata'' JSONB)]\<rparr>"

definition api_keys :: table_def where
  "api_keys = \<lparr>table_name = ''api_keys'', table_columns =
    [DEFAULT uuid_generate_v4 (PRIMARY_KEY (column ''id'' UUID)),
     column ''tenant_id'' UUID,
     column ''user_id'' UUID,
     NOT_NULL (column ''key_name'' (VARCHAR 100)),
     NOT_NULL (column ''key_value'' TEXT),
     column ''platform_id'' UUID,
     DEFAULT (DefaultValue (VBool True)) (column ''is_active'' BOOLEAN),
     column ''expires_at'' TIMESTAMPTZ,
     DEFAULT NOW (column ''created_at'' TIMESTAMPTZ),
     column ''last_used'' TIMESTAMPTZ,
     DEFAULT (DefaultValue (VInteger 0)) (column ''usage_count'' INTEGER)]\<rparr>"

definition content_templates :: table_def where
  "content_templates = \<lparr>table_name = ''content_templates'', table_columns =
    [DEFAULT uuid_generate_v4 (PRIMARY_KEY (column ''id'' UUID)),
     column ''tenant_id'' UUID,
     column ''user_id'' UUID,
     NOT_NULL (column ''name'' (VARCHAR 100)),
     column ''description'' TEXT,
     NOT_NULL (column ''content'' TEXT),
     CHECK_IN [''post'', ''story'', ''thread'', ''video'']
       (DEFAULT (DefaultValue (VString ''post'')) (column ''template_type'' (VARCHAR 20))),
     DEFAULT (DefaultValue empty_array) (column ''variables'' JSONB),
     DEFAULT (DefaultValue (VBool True)) (column ''is_active'' BOOLEAN),
     DEFAULT NOW (column ''created_at'' TIMESTAMPTZ),
     DEFAULT NOW (column ''updated_at'' TIMESTAMPTZ),
     DEFAULT (DefaultValue (VInteger 0)) (column ''usage_count'' INTEGER)]\<rparr>"

definition scheduled_posts :: table_def where
  "scheduled_posts = \<lparr>table_name = ''scheduled_posts'', table_columns =
    [DEFAULT uuid_generate_v4 (PRIMARY_KEY (column ''id'' UUID)),
     column ''tenant_id'' UUID,
     column ''user_id'' UUID,
     column ''template_id'' UUID,
     column ''title'' (VARCHAR 200),
     NOT_NULL (column ''content'' TEXT),
     DEFAULT (DefaultValue empty_array) (column ''media_urls'' JSONB),
     NOT_NULL (column ''scheduled_time'' TIMESTAMPTZ),
     CHECK_IN [''scheduled'', ''published'', ''failed'', ''cancelled'']
       (DEFAULT (DefaultValue (VString ''scheduled'')) (column ''status'' (VARCHAR 20))),
     NOT_NULL (column ''target_accounts'' JSONB),
     DEFAULT NOW (column ''created_at'' TIMESTAMPTZ),
     DEFAULT NOW (column ''updated_at'' TIMESTAMPTZ),
     column ''published_at'' TIMESTAMPTZ,
     column ''error_message'' TEXT]\<rparr>"

definition automation_rules :: table_def where
  "automation_rules = \<lparr>table_name = ''automation_rules'', table_columns =
    [DEFAULT uuid_generate_v4 (PRIMARY_KEY (column ''id'' UUID)),
     column ''tenant_id'' UUID,
     column ''user_id'' UUID,
     NOT_NULL (column ''name'' (VARCHAR 100)),
     column ''description'' TEXT,
     CHECK_IN [''time_based'', ''content_based'', ''engagement_based'', ''hashtag_based'']
       (NOT_NULL (column ''trigger_type'' (VARCHAR 30))),
     NOT_NULL (column ''trigger_config'' JSONB),
     CHECK_IN [''post'', ''like'', ''comment'', ''follow'', ''share'']
       (NOT_NULL (column ''action_type'' (VARCHAR 30))),
     NOT_NULL (column ''action_config'' JSONB),
     NOT_NULL (column ''target_accounts'' JSONB),
     DEFAULT (DefaultValue (VBool True)) (column ''is_active'' BOOLEAN),
     DEFAULT NOW (column ''created_at'' TIMESTAMPTZ),
     DEFAULT NOW (column ''updated_at'' TIMESTAMPTZ),
     column ''last_executed'' TIMESTAMPTZ,
     DEFAULT (DefaultValue (VInteger 0)) (column ''execution_count'' INTEGER)]\<rparr>"

definition analytics :: table_def where
  "analytics = \<lparr>table_name = ''analytics'', table_columns =
    [DEFAULT uuid_generate_v4 (PRIMARY_KEY (column ''id'' UUID)),
     column ''tenant_id'' UUID,
     column ''social_account_id'' UUID,
     column ''post_id'' (VARCHAR 100),
     CHECK_IN [''likes'', ''shares'', ''comments'', ''views'', ''clicks'', ''reach'',
         ''impressions'']
       (NOT_NULL (column ''metric_type'' (VARCHAR 30))),
     DEFAULT (DefaultValue (VInteger 0)) (NOT_NULL (column ''metric_value'' INTEGER)),
     DEFAULT NOW (column ''recorded_at'' TIMESTAMPTZ),
     DEFAULT (DefaultValue empty_object) (column ''metadata'' JSONB)]\<rparr>"

definition activity_logs :: table_def where
  "activity_logs = \<lparr>table_name = ''activity_logs'', table_columns =
    [DEFAULT uuid_generate_v4 (PRIMARY_KEY (column ''id'' UUID)),
     column ''tenant_id'' UUID,
     column ''user_id'' UUID,
     NOT_NULL (column ''action'' (VARCHAR 50)),
     column ''resource_type'' (VARCHAR 30),
     column ''resource_id'' UUID,
     DEFAULT (DefaultValue empty_object) (column ''details'' JSONB),
     column ''ip_address'' INET,
     column ''user_agent'' TEXT,
     DEFAULT NOW (column ''created_at'' TIMESTAMPTZ)]\<rparr>"

definition schema :: "table_def list" where
  "schema = [tenants, users, platforms, social_accounts, api_keys, content_templates,
     scheduled_posts, automation_rules, analytics, activity_logs]"

text \<open>
  The six CREATE TRIGGER statements, each BEFORE UPDATE ... FOR EACH ROW EXECUTE FUNCTION
  update_updated_at_column(): the trigger's name and the table it is on.
\<close>

definition triggers :: "(string \<times> string) list" where
  "triggers =
    [(''update_tenants_updated_at'', ''tenants''),
     (''update_users_updated_at'', ''users''),
     (''update_social_accounts_updated_at'', ''social_accounts''),
     (''update_content_templates_updated_at'', ''content_templates''),
     (''update_scheduled_posts_updated_at'', ''scheduled_posts''),
     (''update_automation_rules_updated_at'', ''automation_rules'')]"

subsection \<open>Statements\<close>

text \<open>
  The trigger function: \<open>NEW.updated_at = NOW(); RETURN NEW\<close>. \<open>NOW()\<close> is the start time
  of the running transaction; it is the parameter \<open>now\<close> everywhere below.
\<close>

definition update_updated_at_column :: "int \<Rightarrow> row \<Rightarrow> row" where
  "update_updated_at_column now new = new(''updated_at'' \<mapsto> VTimestamp now)"

definition fire_before_update :: "string \<Rightarrow> int \<Rightarrow> row \<Rightarrow> row" where
  "fire_before_update t now new =
     fold (\<lambda>trg r. update_updated_at_column now r)
       (filter (\<lambda>trg. snd trg = t) triggers) new"

definition lookup_table :: "string \<Rightarrow> table_def option" where
  "lookup_table t = find (\<lambda>td. table_name td = t) schema"

definition lookup_column :: "column_def list \<Rightarrow> string \<Rightarrow> column_def option" where
  "lookup_column cols c = find (\<lambda>cd. col_name cd = c) cols"

text \<open>
  Storing a value in a column. A statement's values arrive already cast to an SQL type; a
  value of another type than the column's is refused. A string longer than VARCHAR(n) is an
  error unless the excess is all spaces, when it is cut to n characters; INTEGER is 32 bits.
\<close>

fun coerce :: "string \<Rightarrow> sql_type \<Rightarrow> sql_value \<Rightarrow> sql_error + sql_value" where
  "coerce c (VARCHAR n) (VString s) =
     (if length s \<le> n then Inr (VString s)
      else if list_all (\<lambda>ch. ch = CHR '' '') (drop n s) then Inr (VString (take n s))
      else Inl (StringTooLong c))"
| "coerce c TEXT (VString s) = Inr (VString s)"
| "coerce c UUID (VUuid u) = Inr (VUuid u)"
| "coerce c TIMESTAMPTZ (VTimestamp t) = Inr (VTimestamp t)"
| "coerce c BOOLEAN (VBool b) = Inr (VBool b)"
| "coerce c JSONB (VJson j) = Inr (VJson j)"
| "coerce c INTEGER (VInteger i) =
     (if - 2147483648 \<le> i \<and> i \<le> 2147483647 then Inr (VInteger i)
      else Inl (IntegerOutOfRange c))"
| "coerce c INET (VInet a) = Inr (VInet a)"
| "coerce c _ _ = Inl (DatatypeMismatch c)"

text \<open>
  The column list of an INSERT or the SET list of an UPDATE: each named column must exist
  and be named once, and each value must fit its column; \<open>None\<close> assigns NULL. The
  result is the list of values as they will be stored.
\<close>

definition store_value :: "string \<Rightarrow> sql_type \<Rightarrow> sql_value option \<Rightarrow> sql_error + sql_value option" where
  "store_value c ty v =
     (case v of
        None \<Rightarrow> Inr None
      | Some x \<Rightarrow> (case coerce c ty x of Inl e \<Rightarrow> Inl e | Inr x' \<Rightarrow> Inr (Some x')))"

fun validate_sets :: "column_def list \<Rightarrow> (string \<times> sql_value option) list \<Rightarrow> sql_error + (string \<times> sql_value option) list" where
  "validate_sets cols [] = Inr []"
| "validate_sets cols ((c, v) # rest) =
     (case lookup_column cols c of
        None \<Rightarrow> Inl (UndefinedColumn c)
      | Some cd \<Rightarrow>
          if c \<in> fst ` set rest then Inl (DuplicateColumn c)
          else (case store_value c (col_type cd) v of
                  Inl e \<Rightarrow> Inl e
                | Inr v' \<Rightarrow>
                    (case validate_sets cols rest of
                       Inl e \<Rightarrow> Inl e
                     | Inr vs \<Rightarrow> Inr ((c, v') # vs))))"

definition apply_sets :: "(string \<times> sql_value option) list \<Rightarrow> row \<Rightarrow> row" where
  "apply_sets vs r = fold (\<lambda>cv r'. r'(fst cv := snd cv)) vs r"

text \<open>
  Constraints on the row about to be stored: first every NOT NULL, then every CHECK. A CHECK
  \<open>col IN (...)\<close> on a NULL evaluates to NULL, which passes.
\<close>

fun check_not_null :: "column_def list \<Rightarrow> row \<Rightarrow> sql_error option" where
  "check_not_null [] r = None"
| "check_not_null (cd # cds) r =
     (if col_not_null cd \<and> r (col_name cd) = None then Some (NotNullViolation (col_name cd))
      else check_not_null cds r)"

fun check_checks :: "column_def list \<Rightarrow> row \<Rightarrow> sql_error option" where
  "check_checks [] r = None"
| "check_checks (cd # cds) r =
     (case (col_check_in cd, r (col_name cd)) of
        (Some allowed, Some (VString s)) \<Rightarrow>
          if s \<in> set allowed then check_checks cds r else Some (CheckViolation (col_name cd))
      | _ \<Rightarrow> check_checks cds r)"

definition check_row :: "column_def list \<Rightarrow> row \<Rightarrow> sql_error option" where
  "check_row cols r =
     (case check_not_null cols r of Some e \<Rightarrow> Some e | None \<Rightarrow> check_checks cols r)"

definition eval_default :: "int \<Rightarrow> string \<Rightarrow> default_expr \<Rightarrow> sql_value" where
  "eval_default now fresh d =
     (case d of DefaultValue v \<Rightarrow> v | NOW \<Rightarrow> VTimestamp now | uuid_generate_v4 \<Rightarrow> VUuid fresh)"

definition defaults_row :: "column_def list \<Rightarrow> int \<Rightarrow> string \<Rightarrow> row" where
  "defaults_row cols now fresh =
     (\<lambda>c. case lookup_column cols c of
             None \<Rightarrow> None
           | Some cd \<Rightarrow> map_option (eval_default now fresh) (col_default cd))"

text \<open>
  \<open>INSERT INTO t (c1, ...) VALUES (v1, ...)\<close>: a column left out takes its DEFAULT (NULL
  without one), then the constraints are checked. \<open>fresh\<close> is what uuid_generate_v4()
  returns. No table has an insert trigger.
\<close>

definition insert_row :: "string \<Rightarrow> int \<Rightarrow> string \<Rightarrow> (string \<times> sql_value option) list \<Rightarrow> sql_error + row" where
  "insert_row t now fresh supplied =
     (case lookup_table t of
        None \<Rightarrow> Inl (UndefinedTable t)
      | Some td \<Rightarrow>
          (case validate_sets (table_columns td) supplied of
             Inl e \<Rightarrow> Inl e
           | Inr vs \<Rightarrow>
               (let new = apply_sets vs (defaults_row (table_columns td) now fresh) in
                case check_row (table_columns td) new of
                  Some e \<Rightarrow> Inl e
                | None \<Rightarrow> Inr new)))"

text \<open>
  \<open>UPDATE t SET c1 = v1, ...\<close> on the row \<open>old\<close>: NEW is \<open>old\<close> with the SET list
  applied, the table's BEFORE UPDATE row triggers run on NEW, then the constraints are
  checked on what the triggers return.
\<close>

definition update_row :: "string \<Rightarrow> int \<Rightarrow> (string \<times> sql_value option) list \<Rightarrow> row \<Rightarrow> sql_error + row" where
  "update_row t now sets old =
     (case lookup_table t of
        None \<Rightarrow> Inl (UndefinedTable t)
      | Some td \<Rightarrow>
          (case validate_sets (table_columns td) sets of
             Inl e \<Rightarrow> Inl e
           | Inr vs \<Rightarrow>
               (let new = fire_before_update t now (apply_sets vs old) in
                case check_row (table_columns td) new of
                  Some e \<Rightarrow> Inl e
                | None \<Rightarrow> Inr new)))"

section \<open>The account manager page\<close>

text \<open>
  \<open>frontend/pages/accounts/index.tsx\<close> keeps the displayed list in the React state
  \<open>users\<close>. An entry is what the API returned for a user; its \<open>id\<close> is a number (the
  table's SERIAL key, an integer), a string, or missing. \<open>!==\<close> is strict inequality: a
  number and a string are never equal, and two numbers or two strings are equal when they
  are the same (NaN, the one number unequal to itself, is not a value of JSON).

  \<open>deleteUser(id)\<close> is
  \<^verbatim>\<open>fetch(`/api/users/${id}`, {method: "DELETE"}).then(() => setUsers(users.filter(u => u.id !== id)))\<close>.
  The promise of \<open>fetch\<close> is fulfilled with the Response for every HTTP status and is
  rejected only when no response arrives; the \<open>then\<close> callback ignores the Response. The
  \<open>users\<close> it filters is the list of the render that created the handler (\<open>rendered\<close>),
  and \<open>current\<close> is the state when the promise settles. The result is the new state.
\<close>

datatype js_value = JsNumber int | JsString string | JsUndefined

record user_entry =
  u_id :: js_value
  u_username :: string
  u_nickname :: string
  u_platform :: string

datatype fetch_outcome = Fulfilled nat | Rejected

definition deleteUser :: "user_entry list \<Rightarrow> js_value \<Rightarrow> fetch_outcome \<Rightarrow> user_entry list \<Rightarrow> user_entry list" where
  "deleteUser rendered ident outcome current =
     (case outcome of
        Fulfilled http_status \<Rightarrow> filter (\<lambda>u. u_id u \<noteq> ident) rendered
      | Rejected \<Rightarrow> current)"

section \<open>The publish scheduler and the rule engine\<close>

text \<open>
  The repository holds no scheduler, rule engine, adapter or ledger: the schema stores
  scheduled posts and automation rules, and no program in the source reads them. The
  definitions of this section are written from the specification's sections 3, 4 and 7.
\<close>

text \<open>Modelled from the spec: the status of a ScheduledPost (section 3); the schema's own
  status column has no publishing.\<close>

datatype post_status = Scheduled | Publishing | Published | Failed | Cancelled

text \<open>Modelled from the spec: what an Adapter operation returns (section 4.1); no adapter
  is in the source.\<close>

datatype outcome =
    Ok string
  | AuthExpired
  | RateLimited nat
  | PlatformRejected string
  | Transient string

text \<open>Modelled from the spec: where one target account of a post stands: still to be
  tried after so many attempts, succeeded with a remote id, or permanently failed with a
  reason (section 4.3); the source keeps target accounts as one JSONB array of ids.\<close>

datatype target_progress = Pending nat | Succeeded string | PermanentlyFailed string

text \<open>Modelled from the spec: a TargetAccount of a post with its progress (section 3).\<close>

record target =
  account :: string
  platform :: string
  progress :: target_progress

text \<open>Modelled from the spec: a ScheduledPost as the scheduler sees it (section 3), with
  the time of its claim for the lease of section 4.3.\<close>

record scheduled_post =
  post_id :: nat
  scheduled_time :: int
  status :: post_status
  targets :: "target list"
  error_detail :: "string option"
  published_at :: "int option"
  claimed_at :: "int option"

text \<open>Modelled from the spec: a DispatchAttempt, the ledger entry of section 3; the source
  has no ledger table.\<close>

record dispatch_attempt =
  attempt_post :: nat
  attempt_account :: string
  attempt_outcome :: outcome
  attempt_time :: int
  attempt_number :: nat

text \<open>Modelled from the spec: the capped attempt count per target, default 5
  (section 4.3).\<close>

definition max_attempts :: nat where
  "max_attempts = 5"

text \<open>Modelled from the spec: how an outcome moves a target after its \<open>n\<close>-th attempt
  (sections 4.3 and 7): Ok succeeds, PlatformRejected is not retryable, every other
  failure is retried until the attempts are exhausted.\<close>

fun after_attempt :: "nat \<Rightarrow> outcome \<Rightarrow> target_progress" where
  "after_attempt n (Ok remote_id) = Succeeded remote_id"
| "after_attempt n (PlatformRejected reason) = PermanentlyFailed reason"
| "after_attempt n failure =
     (if max_attempts \<le> n then PermanentlyFailed ''retries exhausted'' else Pending n)"

text \<open>Modelled from the spec: one dispatch to one target (section 4.3). \<open>publish\<close> stands
  for the adapter's publish operation on the platform: the outcome of the given attempt
  on the given target. A target that succeeded or permanently failed is not tried again;
  every attempt yields one ledger entry.\<close>

definition dispatch_target :: "(nat \<Rightarrow> target \<Rightarrow> nat \<Rightarrow> outcome) \<Rightarrow> int \<Rightarrow> nat \<Rightarrow> target \<Rightarrow> target \<times> dispatch_attempt list" where
  "dispatch_target publish now pid t =
     (case progress t of
        Pending n \<Rightarrow>
          (let result = publish pid t (Suc n) in
           (t\<lparr>progress := after_attempt (Suc n) result\<rparr>,
            [\<lparr>attempt_post = pid, attempt_account = account t, attempt_outcome = result,
              attempt_time = now, attempt_number = Suc n\<rparr>]))
      | _ \<Rightarrow> (t, []))"

text \<open>Modelled from the spec: a target that reached a successful attempt, and one that
  permanently failed (section 4.3).\<close>

definition succeeded :: "target \<Rightarrow> bool" where
  "succeeded t = (case progress t of Succeeded remote_id \<Rightarrow> True | _ \<Rightarrow> False)"

definition permanently_failed :: "target \<Rightarrow> bool" where
  "permanently_failed t = (case progress t of PermanentlyFailed reason \<Rightarrow> True | _ \<Rightarrow> False)"


text \<open>Modelled from the spec: the post-level status after a dispatch (section 4.3):
  published only if all targets succeeded, failed if any target permanently failed,
  otherwise still publishing.\<close>

definition post_level_status :: "target list \<Rightarrow> post_status" where
  "post_level_status ts =
     (if list_all succeeded ts then Published
      else if list_ex permanently_failed ts then Failed
      else Publishing)"

text \<open>Modelled from the spec: the error detail of a failed post names the platform and
  reason of the targets that permanently failed (section 8).\<close>

definition failure_detail :: "target list \<Rightarrow> string" where
  "failure_detail ts =
     concat (map (\<lambda>t. case progress t of
                        PermanentlyFailed reason \<Rightarrow> platform t @ '': '' @ reason @ ''; ''
                      | _ \<Rightarrow> []) ts)"

text \<open>Modelled from the spec: dispatching a claimed post to every target and setting the
  post-level status, timestamps and error detail (section 4.3).\<close>

definition dispatch_post :: "(nat \<Rightarrow> target \<Rightarrow> nat \<Rightarrow> outcome) \<Rightarrow> int \<Rightarrow> scheduled_post \<Rightarrow> scheduled_post \<times> dispatch_attempt list" where
  "dispatch_post publish now p =
     (let results = map (dispatch_target publish now (post_id p)) (targets p);
          ts = map fst results;
          st = post_level_status ts
      in (p\<lparr>status := st, targets := ts,
            error_detail := (if st = Failed then Some (failure_detail ts) else error_detail p),
            published_at := (if st = Published then Some now else published_at p)\<rparr>,
          concat (map snd results)))"

text \<open>Modelled from the spec: the selection of section 4.3, posts whose
  \<open>scheduled_time \<le> now\<close> and \<open>status = scheduled\<close>.\<close>

definition due :: "int \<Rightarrow> scheduled_post \<Rightarrow> bool" where
  "due now p = (scheduled_time p \<le> now \<and> status p = Scheduled)"

text \<open>Modelled from the spec: a claim not resolved within the lease is abandoned and can
  be claimed again (section 4.3); this is also how a post left publishing is retried by a
  later pass.\<close>

definition abandoned :: "int \<Rightarrow> int \<Rightarrow> scheduled_post \<Rightarrow> bool" where
  "abandoned now lease p =
     (status p = Publishing \<and>
      (case claimed_at p of None \<Rightarrow> True | Some t \<Rightarrow> t + lease \<le> now))"

text \<open>Modelled from the spec: the posts a pass works on, the due ones and the abandoned
  ones (section 4.3).\<close>

definition eligible :: "int \<Rightarrow> int \<Rightarrow> scheduled_post \<Rightarrow> bool" where
  "eligible now lease p = (due now p \<or> abandoned now lease p)"

text \<open>Modelled from the spec: the claim, status to publishing (section 4.3).\<close>

definition claim :: "int \<Rightarrow> scheduled_post \<Rightarrow> scheduled_post" where
  "claim now p = p\<lparr>status := Publishing, claimed_at := Some now\<rparr>"

text \<open>Modelled from the spec: the claim-and-dispatch cycle on one post (section 4.3); a
  post that is not selected is left alone.\<close>

definition claim_and_dispatch :: "(nat \<Rightarrow> target \<Rightarrow> nat \<Rightarrow> outcome) \<Rightarrow> int \<Rightarrow> int \<Rightarrow> scheduled_post \<Rightarrow> scheduled_post \<times> dispatch_attempt list" where
  "claim_and_dispatch publish now lease p =
     (if eligible now lease p then dispatch_post publish now (claim now p) else (p, []))"

text \<open>Modelled from the spec: one scheduling pass over the stored posts, appending every
  attempt to the ledger (sections 4.3 and 4.5).\<close>

fun scheduler_pass :: "(nat \<Rightarrow> target \<Rightarrow> nat \<Rightarrow> outcome) \<Rightarrow> int \<Rightarrow> int \<Rightarrow> scheduled_post list \<Rightarrow> dispatch_attempt list \<Rightarrow> scheduled_post list \<times> dispatch_attempt list" where
  "scheduler_pass publish now lease [] ledger = ([], ledger)"
| "scheduler_pass publish now lease (p # ps) ledger =
     (case claim_and_dispatch publish now lease p of
        (p', attempts) \<Rightarrow>
          (case scheduler_pass publish now lease ps (ledger @ attempts) of
             (ps', ledger') \<Rightarrow> (p' # ps', ledger')))"

text \<open>Modelled from the spec: the trigger types of an AutomationRule (section 3).\<close>

datatype trigger_kind = time_based | content_based | engagement_based | hashtag_based

text \<open>Modelled from the spec: an AutomationRule as the rule engine sees it (section 3),
  with the metric threshold of an engagement_based trigger and the hysteresis flag of
  section 4.4: \<open>armed\<close> holds while the last observation was below the threshold.\<close>

record automation_rule =
  rule_active :: bool
  trigger_type :: trigger_kind
  threshold :: int
  armed :: bool
  last_executed :: "int option"
  execution_count :: nat

text \<open>Modelled from the spec: evaluating an engagement_based rule on one metric snapshot
  (section 4.4): it fires when the metric is at or above the threshold and the rule is
  armed, and a firing increments \<open>execution_count\<close> and sets \<open>last_executed\<close>. The result
  is the rule and whether it fired.\<close>

definition evaluate_engagement :: "automation_rule \<Rightarrow> int \<times> int \<Rightarrow> automation_rule \<times> bool" where
  "evaluate_engagement rule snapshot =
     (case snapshot of
        (observed_at, metric) \<Rightarrow>
          if \<not> rule_active rule \<or> trigger_type rule \<noteq> engagement_based then (rule, False)
          else if threshold rule \<le> metric then
            (if armed rule
             then (rule\<lparr>armed := False, last_executed := Some observed_at,
                        execution_count := Suc (execution_count rule)\<rparr>, True)
             else (rule, False))
          else (rule\<lparr>armed := True\<rparr>, False))"

text \<open>Modelled from the spec: the engine polling a sequence of snapshots; the result is
  the rule at the end and, for each snapshot, whether the rule fired on it.\<close>

fun evaluate_all :: "automation_rule \<Rightarrow> (int \<times> int) list \<Rightarrow> automation_rule \<times> bool list" where
  "evaluate_all rule [] = (rule, [])"
| "evaluate_all rule (snapshot # rest) =
     (case evaluate_engagement rule snapshot of
        (rule', fired) \<Rightarrow>
          (case evaluate_all rule' rest of (rule'', fires) \<Rightarrow> (rule'', fired # fires)))"

text \<open>Modelled from the spec: an upward crossing, on the observed values alone
  (sections 4.4 and 8). Position \<open>i\<close> is an upward crossing of the threshold when the value
  there is at or above it and the value before was below it; \<open>below_before\<close> says whether
  the value before the first snapshot was below.\<close>

definition upward_crossing :: "int \<Rightarrow> bool \<Rightarrow> int list \<Rightarrow> nat \<Rightarrow> bool" where
  "upward_crossing T below_before metrics i =
     (T \<le> metrics ! i \<and> (if i = 0 then below_before else metrics ! (i - 1) < T))"

section \<open>Example rows, statements and runs\<close>

text \<open>Concrete rows, statements, posts and rules on which the theorems below are run.\<close>

definition example_post :: row where
  "example_post = map_of
     [(''id'', VUuid ''post-1''), (''content'', VString ''hello''),
      (''media_urls'', empty_array), (''scheduled_time'', VTimestamp 500),
      (''status'', VString ''scheduled''),
      (''target_accounts'', VJson (JArr [JStr ''account-1''])),
      (''created_at'', VTimestamp 100), (''updated_at'', VTimestamp 100)]"

definition example_rule_insert :: "json \<Rightarrow> (string \<times> sql_value option) list" where
  "example_rule_insert cfg =
     [(''name'', Some (VString ''thank likers'')),
      (''trigger_type'', Some (VString ''engagement_based'')),
      (''trigger_config'', Some (VJson cfg)),
      (''action_type'', Some (VString ''like'')),
      (''action_config'', Some empty_object),
      (''target_accounts'', Some (VJson (JArr [JStr ''account-1''])))]"

definition example_rule :: "json \<Rightarrow> row" where
  "example_rule cfg = map_of
     [(''id'', VUuid ''rule-1''), (''name'', VString ''thank likers''),
      (''trigger_type'', VString ''engagement_based''), (''trigger_config'', VJson cfg),
      (''action_type'', VString ''like''), (''action_config'', empty_object),
      (''target_accounts'', VJson (JArr [JStr ''account-1''])),
      (''is_active'', VBool True), (''created_at'', VTimestamp 100),
      (''updated_at'', VTimestamp 100), (''execution_count'', VInteger 0)]"

definition example_config :: json where
  "example_config = JObj [(''metric'', JStr ''likes''), (''threshold'', JNum 100)]"

definition example_rule_state :: automation_rule where
  "example_rule_state = \<lparr>rule_active = True, trigger_type = engagement_based, threshold = 100,
     armed = True, last_executed = None, execution_count = 0\<rparr>"

definition example_scheduled_post :: scheduled_post where
  "example_scheduled_post =
     \<lparr>post_id = 7, scheduled_time = 500, status = Scheduled,
      targets = [\<lparr>account = ''account-a'', platform = ''twitter'', progress = Pending 0\<rparr>,
                 \<lparr>account = ''account-b'', platform = ''facebook'', progress = Pending 0\<rparr>],
      error_detail = None, published_at = None, claimed_at = None\<rparr>"

definition example_publish :: "nat \<Rightarrow> target \<Rightarrow> nat \<Rightarrow> outcome" where
  "example_publish pid t n =
     (if account t = ''account-a'' then Ok ''remote-1'' else PlatformRejected ''policy'')"


definition example_published_post :: scheduled_post where
  "example_published_post =
     \<lparr>post_id = 8, scheduled_time = 400, status = Published,
      targets = [\<lparr>account = ''account-a'', platform = ''twitter'',
                  progress = Succeeded ''remote-0''\<rparr>],
      error_detail = None, published_at = Some 450, claimed_at = Some 440\<rparr>"

section \<open>Properties of the schema\<close>

subsection \<open>Looking up tables and columns, applying a SET list\<close>

lemma fire_before_update_triggered:
  "t \<in> {''tenants'', ''users'', ''social_accounts'', ''content_templates'',
         ''scheduled_posts'', ''automation_rules''}
   \<Longrightarrow> fire_before_update t now new = new(''updated_at'' \<mapsto> VTimestamp now)"
  by (auto simp: fire_before_update_def triggers_def update_updated_at_column_def)

lemma table_names:
  "table_name tenants = ''tenants''" "table_name users = ''users''"
  "table_name platforms = ''platforms''" "table_name social_accounts = ''social_accounts''"
  "table_name api_keys = ''api_keys''" "table_name content_templates = ''content_templates''"
  "table_name scheduled_posts = ''scheduled_posts''"
  "table_name automation_rules = ''automation_rules''"
  "table_name analytics = ''analytics''" "table_name activity_logs = ''activity_logs''"
  by (simp_all add: tenants_def users_def platforms_def social_accounts_def api_keys_def
      content_templates_def scheduled_posts_def automation_rules_def analytics_def
      activity_logs_def)

lemma lookup_table_simps:
  "lookup_table ''tenants'' = Some tenants"
  "lookup_table ''users'' = Some users"
  "lookup_table ''social_accounts'' = Some social_accounts"
  "lookup_table ''content_templates'' = Some content_templates"
  "lookup_table ''scheduled_posts'' = Some scheduled_posts"
  "lookup_table ''automation_rules'' = Some automation_rules"
  by (simp_all add: lookup_table_def schema_def table_names)

lemmas column_simps = column_def NOT_NULL_def PRIMARY_KEY_def DEFAULT_def CHECK_IN_def

lemma apply_sets_Nil: "apply_sets [] r = r"
  by (simp add: apply_sets_def)

lemma apply_sets_Cons: "apply_sets ((c, v) # vs) r = apply_sets vs (r(c := v))"
  by (simp add: apply_sets_def)

lemma apply_sets_append: "apply_sets (xs @ ys) r = apply_sets ys (apply_sets xs r)"
  by (simp add: apply_sets_def)

lemma apply_sets_commute:
  "c \<notin> fst ` set vs \<Longrightarrow> apply_sets vs (r(c := v)) = (apply_sets vs r)(c := v)"
proof (induction vs arbitrary: r)
  case Nil
  show ?case by (simp add: apply_sets_Nil)
next
  case (Cons a vs)
  obtain c' v' where a: "a = (c', v')" by (cases a)
  with Cons.prems have ne: "c \<noteq> c'" and notin: "c \<notin> fst ` set vs" by auto
  have tw: "(r(c := v))(c' := v') = (r(c' := v'))(c := v)"
    using ne by (rule fun_upd_twist)
  have "apply_sets (a # vs) (r(c := v)) = apply_sets vs ((r(c := v))(c' := v'))"
    by (simp only: a apply_sets_Cons)
  also have "\<dots> = apply_sets vs ((r(c' := v'))(c := v))"
    by (simp only: tw)
  also have "\<dots> = (apply_sets vs (r(c' := v')))(c := v)"
    by (rule Cons.IH [OF notin])
  also have "\<dots> = (apply_sets (a # vs) r)(c := v)"
    by (simp only: a apply_sets_Cons)
  finally show ?case .
qed

lemma validate_sets_keys:
  "validate_sets cols sets = Inr vs \<Longrightarrow> map fst vs = map fst sets"
proof (induction sets arbitrary: vs)
  case Nil
  then show ?case by simp
next
  case (Cons a sets)
  obtain c v where a: "a = (c, v)" by (cases a)
  from Cons.prems obtain v' vs' where "validate_sets cols sets = Inr vs'" "vs = (c, v') # vs'"
    by (auto simp: a split: option.splits if_splits sum.splits)
  with Cons.IH [of vs'] show ?case by (simp add: a)
qed

lemma store_value_json:
  "store_value c ty (Some (VJson j)) =
     (if ty = JSONB then Inr (Some (VJson j)) else Inl (DatatypeMismatch c))"
  by (cases ty) (simp_all add: store_value_def)

lemma validate_sets_swap_json:
  "validate_sets cols (pre @ (c, Some (VJson j)) # post) = Inl e \<Longrightarrow>
   validate_sets cols (pre @ (c, Some (VJson j')) # post) = Inl e"
  "validate_sets cols (pre @ (c, Some (VJson j)) # post) = Inr vs \<Longrightarrow>
   \<exists>pre' post'. vs = pre' @ (c, Some (VJson j)) # post' \<and>
      c \<notin> fst ` set post' \<and>
      validate_sets cols (pre @ (c, Some (VJson j')) # post) =
        Inr (pre' @ (c, Some (VJson j')) # post')"
proof (induction pre arbitrary: vs)
  case Nil
  {
    case 1
    then show ?case
      by (auto simp: store_value_json split: option.splits if_splits sum.splits)
  next
    case 2
    then obtain vs' where v: "validate_sets cols post = Inr vs'"
      "vs = (c, Some (VJson j)) # vs'" "c \<notin> fst ` set post"
      by (auto simp: store_value_json split: option.splits if_splits sum.splits)
    from validate_sets_keys [OF v(1)] have "fst ` set vs' = fst ` set post"
      by (metis set_map)
    with v(3) have "c \<notin> fst ` set vs'" by simp
    moreover from 2 v have
      "validate_sets cols ([] @ (c, Some (VJson j')) # post) = Inr ([] @ (c, Some (VJson j')) # vs')"
      by (auto simp: store_value_json split: option.splits if_splits sum.splits)
    ultimately show ?case using v(2) by (metis append_Nil)
  }
next
  case (Cons a pre)
  obtain c' v' where a: "a = (c', v')" by (cases a)
  {
    case 1
    then show ?case
      using Cons.IH(1)
      by (auto simp: a split: option.splits if_splits sum.splits dest: Cons.IH(2))
  next
    case 2
    then obtain w ws where w: "validate_sets cols (pre @ (c, Some (VJson j)) # post) = Inr ws"
      "vs = (c', w) # ws"
      by (auto simp: a split: option.splits if_splits sum.splits)
    from Cons.IH(2) [OF w(1)] obtain pre' post' where
      p: "ws = pre' @ (c, Some (VJson j)) # post'" "c \<notin> fst ` set post'"
      "validate_sets cols (pre @ (c, Some (VJson j')) # post) =
         Inr (pre' @ (c, Some (VJson j')) # post')"
      by blast
    from 2 w p have
      "validate_sets cols ((a # pre) @ (c, Some (VJson j')) # post) =
         Inr (((c', w) # pre') @ (c, Some (VJson j')) # post')"
      by (auto simp: a split: option.splits if_splits sum.splits)
    moreover have "vs = ((c', w) # pre') @ (c, Some (VJson j)) # post'"
      using w(2) p(1) by simp
    ultimately show ?case using p(2) by blast
  }
qed

lemma apply_sets_swap_json:
  assumes "c \<notin> fst ` set post'"
  shows "apply_sets (pre' @ (c, Some (VJson j')) # post') r =
         (apply_sets (pre' @ (c, Some (VJson j)) # post') r)(c \<mapsto> VJson j')"
  by (simp add: apply_sets_append apply_sets_Cons apply_sets_commute [OF assms])

lemma apply_sets_stored_json:
  assumes "c \<notin> fst ` set post'"
  shows "(apply_sets (pre' @ (c, Some (VJson j)) # post') r) c = Some (VJson j)"
  by (simp add: apply_sets_append apply_sets_Cons apply_sets_commute [OF assms])

lemma check_not_null_upd:
  "check_not_null cols r = None \<Longrightarrow> check_not_null cols (r(c \<mapsto> v)) = None"
  by (induction cols) (auto split: if_splits)

lemma check_not_null_json:
  "r c = Some v \<Longrightarrow> check_not_null cols (r(c \<mapsto> v')) = check_not_null cols r"
  by (induction cols) auto

lemma check_checks_json:
  "r c = Some (VJson j) \<Longrightarrow> check_checks cols (r(c \<mapsto> VJson j')) = check_checks cols r"
  by (induction cols) (auto split: option.splits sql_value.splits)

lemma check_row_json:
  assumes "r c = Some (VJson j)"
  shows "check_row cols (r(c \<mapsto> VJson j')) = check_row cols r"
proof -
  have "check_not_null cols (r(c \<mapsto> VJson j')) = check_not_null cols r"
    using assms by (rule check_not_null_json)
  moreover have "check_checks cols (r(c \<mapsto> VJson j')) = check_checks cols r"
    using assms by (rule check_checks_json)
  ultimately show ?thesis by (simp only: check_row_def)
qed

lemma apply_sets_untouched:
  assumes "c \<notin> fst ` set vs"
  shows "apply_sets vs r c = r c"
proof -
  have "apply_sets vs (r(c := r c)) = (apply_sets vs r)(c := r c)"
    using assms by (rule apply_sets_commute)
  then have "apply_sets vs r = (apply_sets vs r)(c := r c)"
    by (simp only: fun_upd_triv)
  then have "apply_sets vs r c = ((apply_sets vs r)(c := r c)) c"
    by (rule arg_cong [where f = "\<lambda>f. f c"])
  then show ?thesis by (simp only: fun_upd_same)
qed

lemma automation_rules_is_active_default:
  "defaults_row (table_columns automation_rules) now fresh ''is_active'' = Some (VBool True)"
  by (simp add: defaults_row_def automation_rules_def lookup_column_def column_simps
      eval_default_def)

lemma automation_rules_columns:
  "lookup_column (table_columns automation_rules) ''name'' =
     Some (NOT_NULL (column ''name'' (VARCHAR 100)))"
  "lookup_column (table_columns automation_rules) ''trigger_type'' =
     Some (CHECK_IN [''time_based'', ''content_based'', ''engagement_based'', ''hashtag_based'']
       (NOT_NULL (column ''trigger_type'' (VARCHAR 30))))"
  "lookup_column (table_columns automation_rules) ''trigger_config'' =
     Some (NOT_NULL (column ''trigger_config'' JSONB))"
  "lookup_column (table_columns automation_rules) ''action_type'' =
     Some (CHECK_IN [''post'', ''like'', ''comment'', ''follow'', ''share'']
       (NOT_NULL (column ''action_type'' (VARCHAR 30))))"
  "lookup_column (table_columns automation_rules) ''action_config'' =
     Some (NOT_NULL (column ''action_config'' JSONB))"
  "lookup_column (table_columns automation_rules) ''target_accounts'' =
     Some (NOT_NULL (column ''target_accounts'' JSONB))"
  by (simp_all add: automation_rules_def lookup_column_def column_simps)

lemma automation_rules_not_nulls:
  "check_not_null (table_columns automation_rules) r =
     (if r ''id'' = None then Some (NotNullViolation ''id'')
      else if r ''name'' = None then Some (NotNullViolation ''name'')
      else if r ''trigger_type'' = None then Some (NotNullViolation ''trigger_type'')
      else if r ''trigger_config'' = None then Some (NotNullViolation ''trigger_config'')
      else if r ''action_type'' = None then Some (NotNullViolation ''action_type'')
      else if r ''action_config'' = None then Some (NotNullViolation ''action_config'')
      else if r ''target_accounts'' = None then Some (NotNullViolation ''target_accounts'')
      else None)"
  by (simp add: automation_rules_def column_simps)

lemma automation_rules_checks:
  "check_checks (table_columns automation_rules) r =
     (case (case r ''trigger_type'' of
              Some (VString s) \<Rightarrow>
                if s \<in> {''time_based'', ''content_based'', ''engagement_based'', ''hashtag_based''}
                then None else Some (CheckViolation ''trigger_type'')
            | _ \<Rightarrow> None) of
        Some e \<Rightarrow> Some e
      | None \<Rightarrow>
          (case r ''action_type'' of
             Some (VString s) \<Rightarrow>
               if s \<in> {''post'', ''like'', ''comment'', ''follow'', ''share''}
               then None else Some (CheckViolation ''action_type'')
           | _ \<Rightarrow> None))"
  by (simp add: automation_rules_def column_simps split: option.splits sql_value.splits)

lemma example_rule_inserted:
  "insert_row ''automation_rules'' 100 ''rule-1'' (example_rule_insert cfg) = Inr (example_rule cfg)"
proof -
  have row: "apply_sets
       [(''name'', Some (VString ''thank likers'')),
        (''trigger_type'', Some (VString ''engagement_based'')),
        (''trigger_config'', Some (VJson cfg)),
        (''action_type'', Some (VString ''like'')),
        (''action_config'', Some empty_object),
        (''target_accounts'', Some (VJson (JArr [JStr ''account-1''])))]
       (defaults_row (table_columns automation_rules) 100 ''rule-1'') = example_rule cfg"
    by (rule ext)
      (simp add: apply_sets_Cons apply_sets_Nil defaults_row_def example_rule_def
        automation_rules_def lookup_column_def column_simps eval_default_def)
  have ok: "check_row (table_columns automation_rules) (example_rule cfg) = None"
    by (simp add: check_row_def automation_rules_not_nulls automation_rules_checks
        example_rule_def)
  show ?thesis
    by (simp add: insert_row_def lookup_table_simps example_rule_insert_def
        automation_rules_columns column_simps store_value_def empty_object_def row [unfolded empty_object_def] ok)
qed

lemma scheduled_posts_columns:
  "lookup_column (table_columns scheduled_posts) ''status'' =
     Some (CHECK_IN [''scheduled'', ''published'', ''failed'', ''cancelled'']
       (DEFAULT (DefaultValue (VString ''scheduled'')) (column ''status'' (VARCHAR 20))))"
  "lookup_column (table_columns scheduled_posts) ''title'' = Some (column ''title'' (VARCHAR 200))"
  "lookup_column (table_columns scheduled_posts) ''updated_at'' =
     Some (DEFAULT NOW (column ''updated_at'' TIMESTAMPTZ))"
  "lookup_column (table_columns scheduled_posts) ''content'' =
     Some (NOT_NULL (column ''content'' TEXT))"
  "lookup_column (table_columns scheduled_posts) ''scheduled_time'' =
     Some (NOT_NULL (column ''scheduled_time'' TIMESTAMPTZ))"
  "lookup_column (table_columns scheduled_posts) ''target_accounts'' =
     Some (NOT_NULL (column ''target_accounts'' JSONB))"
  by (simp_all add: scheduled_posts_def lookup_column_def column_simps)

lemma scheduled_posts_not_nulls:
  "check_not_null (table_columns scheduled_posts) r =
     (if r ''id'' = None then Some (NotNullViolation ''id'')
      else if r ''content'' = None then Some (NotNullViolation ''content'')
      else if r ''scheduled_time'' = None then Some (NotNullViolation ''scheduled_time'')
      else if r ''target_accounts'' = None then Some (NotNullViolation ''target_accounts'')
      else None)"
  by (simp add: scheduled_posts_def column_simps)

lemma scheduled_posts_checks:
  "check_checks (table_columns scheduled_posts) r =
     (case r ''status'' of
        Some (VString s) \<Rightarrow>
          if s \<in> {''scheduled'', ''published'', ''failed'', ''cancelled''} then None
          else Some (CheckViolation ''status'')
      | _ \<Rightarrow> None)"
  by (simp add: scheduled_posts_def column_simps split: option.splits sql_value.splits)

lemma example_post_ok: "check_row (table_columns scheduled_posts) example_post = None"
  by (simp add: check_row_def scheduled_posts_not_nulls scheduled_posts_checks example_post_def)

subsection \<open>The updated_at trigger\<close>

text \<open>
  Claim C10. For every UPDATE to a row of tenants, users, social_accounts,
  content_templates, scheduled_posts or automation_rules, the BEFORE UPDATE trigger sets
  the row's updated_at to \<open>NOW()\<close>, whatever the SET list assigns (updated_at itself
  included). An UPDATE that a constraint refuses stores nothing.
\<close>

theorem update_sets_updated_at:
  assumes "t \<in> {''tenants'', ''users'', ''social_accounts'', ''content_templates'',
                 ''scheduled_posts'', ''automation_rules''}"
    and "update_row t now sets old = Inr new"
  shows "new ''updated_at'' = Some (VTimestamp now)"
proof -
  from assms(2) obtain x where "new = fire_before_update t now x"
    by (auto simp: update_row_def Let_def split: option.splits sum.splits)
  then show ?thesis
    using fire_before_update_triggered [OF assms(1)] by simp
qed

theorem update_sets_updated_at_witness:
  "''scheduled_posts'' \<in> {''tenants'', ''users'', ''social_accounts'', ''content_templates'',
      ''scheduled_posts'', ''automation_rules''} \<and>
   update_row ''scheduled_posts'' 900
       [(''title'', Some (VString ''launch'')), (''updated_at'', Some (VTimestamp 7))] example_post =
     Inr (example_post(''title'' \<mapsto> VString ''launch'', ''updated_at'' \<mapsto> VTimestamp 900)) \<and>
   (example_post(''title'' \<mapsto> VString ''launch'', ''updated_at'' \<mapsto> VTimestamp 900)) ''updated_at'' =
     Some (VTimestamp 900)"
proof -
  have t: "''scheduled_posts'' \<in> {''tenants'', ''users'', ''social_accounts'',
      ''content_templates'', ''scheduled_posts'', ''automation_rules''}"
    by simp
  have u: "update_row ''scheduled_posts'' 900
       [(''title'', Some (VString ''launch'')), (''updated_at'', Some (VTimestamp 7))] example_post =
     Inr (example_post(''title'' \<mapsto> VString ''launch'', ''updated_at'' \<mapsto> VTimestamp 900))"
    by (simp add: update_row_def lookup_table_simps scheduled_posts_columns column_simps
        store_value_def apply_sets_Cons apply_sets_Nil fire_before_update_triggered
        check_row_def scheduled_posts_not_nulls scheduled_posts_checks example_post_def)
  from update_sets_updated_at [OF t u] t u show ?thesis by blast
qed

subsection \<open>The status of a scheduled post\<close>

text \<open>
  Claim C1, as the schema has it. A row of scheduled_posts that satisfies the table's
  constraints has a status that, when it is a string, is one of scheduled, published,
  failed, cancelled: publishing is not a status of the schema. An UPDATE of status to the
  string \<open>s\<close> is accepted exactly when \<open>s\<close> is one of these four, whatever the status
  was before; it stores \<open>s\<close> and the new updated_at and changes nothing else. The schema
  holds no state machine: every transition between the four values is accepted.
\<close>

theorem scheduled_posts_status_unconstrained:
  assumes "check_row (table_columns scheduled_posts) old = None"
  shows "(\<forall>s0. old ''status'' = Some (VString s0) \<longrightarrow>
            s0 \<in> {''scheduled'', ''published'', ''failed'', ''cancelled''}) \<and>
         (case update_row ''scheduled_posts'' now [(''status'', Some (VString s))] old of
            Inr new \<Rightarrow>
              s \<in> {''scheduled'', ''published'', ''failed'', ''cancelled''} \<and>
              new = old(''status'' \<mapsto> VString s, ''updated_at'' \<mapsto> VTimestamp now)
          | Inl e \<Rightarrow> s \<notin> {''scheduled'', ''published'', ''failed'', ''cancelled''})"
proof -
  from assms have nn: "check_not_null (table_columns scheduled_posts) old = None"
    and ck: "check_checks (table_columns scheduled_posts) old = None"
    by (auto simp: check_row_def split: option.splits)
  have range: "\<forall>s0. old ''status'' = Some (VString s0) \<longrightarrow>
      s0 \<in> {''scheduled'', ''published'', ''failed'', ''cancelled''}"
    using ck by (auto simp: scheduled_posts_checks split: if_splits)
  have nn': "check_not_null (table_columns scheduled_posts)
      (old(''status'' \<mapsto> v, ''updated_at'' \<mapsto> VTimestamp now)) = None" for v
    using nn by (simp add: check_not_null_upd)
  have long: "s' \<notin> {''scheduled'', ''published'', ''failed'', ''cancelled''}"
    if "20 \<le> length s'" for s' :: string
    using that by auto
  have upd: "case update_row ''scheduled_posts'' now [(''status'', Some (VString s))] old of
            Inr new \<Rightarrow>
              s \<in> {''scheduled'', ''published'', ''failed'', ''cancelled''} \<and>
              new = old(''status'' \<mapsto> VString s, ''updated_at'' \<mapsto> VTimestamp now)
          | Inl e \<Rightarrow> s \<notin> {''scheduled'', ''published'', ''failed'', ''cancelled''}"
  proof (cases "length s \<le> 20")
    case True
    then show ?thesis
      using nn' [of "VString s"]
      by (simp add: update_row_def lookup_table_simps scheduled_posts_columns
          column_simps store_value_def apply_sets_Cons apply_sets_Nil
          fire_before_update_triggered check_row_def scheduled_posts_checks)
  next
    case False
    then have "20 \<le> length s" "20 \<le> length (take 20 s)" by simp_all
    then have "s \<notin> {''scheduled'', ''published'', ''failed'', ''cancelled''}"
      "take 20 s \<notin> {''scheduled'', ''published'', ''failed'', ''cancelled''}"
      using long by blast+
    with False show ?thesis
      using nn' [of "VString (take 20 s)"]
      by (simp add: update_row_def lookup_table_simps scheduled_posts_columns
          column_simps store_value_def apply_sets_Cons apply_sets_Nil
          fire_before_update_triggered check_row_def scheduled_posts_checks)
  qed
  from range upd show ?thesis by blast
qed

theorem scheduled_posts_status_unconstrained_witness:
  "check_row (table_columns scheduled_posts) (example_post(''status'' \<mapsto> VString ''published'')) = None \<and>
   update_row ''scheduled_posts'' 900 [(''status'', Some (VString ''cancelled''))]
       (example_post(''status'' \<mapsto> VString ''published'')) =
     Inr (example_post(''status'' \<mapsto> VString ''cancelled'', ''updated_at'' \<mapsto> VTimestamp 900))"
proof -
  have ok: "check_row (table_columns scheduled_posts)
      (example_post(''status'' \<mapsto> VString ''published'')) = None"
    by (simp add: check_row_def scheduled_posts_not_nulls scheduled_posts_checks example_post_def)
  from scheduled_posts_status_unconstrained [OF ok, where now = 900 and s = "''cancelled''"] ok
  show ?thesis by (auto split: sum.splits)
qed

text \<open>
  The claim as stated fails on the schema: the post that an INSERT stores as scheduled
  cannot move to publishing (the CHECK refuses the UPDATE), and a cancelled post can be
  set to published.
\<close>

theorem publishing_status_rejected:
  "insert_row ''scheduled_posts'' 100 ''post-1''
       [(''content'', Some (VString ''hello'')), (''scheduled_time'', Some (VTimestamp 500)),
        (''target_accounts'', Some (VJson (JArr [JStr ''account-1''])))] = Inr example_post \<and>
   update_row ''scheduled_posts'' 900 [(''status'', Some (VString ''publishing''))] example_post =
     Inl (CheckViolation ''status'') \<and>
   update_row ''scheduled_posts'' 900 [(''status'', Some (VString ''published''))]
       (example_post(''status'' \<mapsto> VString ''cancelled'')) =
     Inr (example_post(''status'' \<mapsto> VString ''published'', ''updated_at'' \<mapsto> VTimestamp 900))"
proof -
  have "apply_sets
       [(''content'', Some (VString ''hello'')), (''scheduled_time'', Some (VTimestamp 500)),
        (''target_accounts'', Some (VJson (JArr [JStr ''account-1''])))]
       (defaults_row (table_columns scheduled_posts) 100 ''post-1'') = example_post"
    by (rule ext)
      (simp add: apply_sets_Cons apply_sets_Nil defaults_row_def example_post_def
        scheduled_posts_def lookup_column_def column_simps eval_default_def)
  then have a: "insert_row ''scheduled_posts'' 100 ''post-1''
       [(''content'', Some (VString ''hello'')), (''scheduled_time'', Some (VTimestamp 500)),
        (''target_accounts'', Some (VJson (JArr [JStr ''account-1''])))] = Inr example_post"
    by (simp add: insert_row_def lookup_table_simps scheduled_posts_columns column_simps
        store_value_def example_post_ok)
  have b: "update_row ''scheduled_posts'' 900 [(''status'', Some (VString ''publishing''))]
      example_post = Inl (CheckViolation ''status'')"
    by (simp add: update_row_def lookup_table_simps scheduled_posts_columns column_simps
        store_value_def apply_sets_Cons apply_sets_Nil fire_before_update_triggered
        check_row_def scheduled_posts_not_nulls scheduled_posts_checks example_post_def)
  have c: "update_row ''scheduled_posts'' 900 [(''status'', Some (VString ''published''))]
       (example_post(''status'' \<mapsto> VString ''cancelled'')) =
     Inr (example_post(''status'' \<mapsto> VString ''published'', ''updated_at'' \<mapsto> VTimestamp 900))"
    by (simp add: update_row_def lookup_table_simps scheduled_posts_columns column_simps
        store_value_def apply_sets_Cons apply_sets_Nil fire_before_update_triggered
        check_row_def scheduled_posts_not_nulls scheduled_posts_checks example_post_def)
  from a b c show ?thesis by simp
qed

subsection \<open>The trigger configuration of an automation rule\<close>

text \<open>
  Claim C6, as the schema has it. The table automation_rules checks that trigger_type is
  one of the four trigger types and that trigger_config is a JSONB value that is not NULL;
  nothing compares the configuration with the trigger type. So if an INSERT is accepted
  with one JSON configuration, the same INSERT with any other JSON configuration is
  accepted too and stores the same row but for trigger_config; and a rule inserted without
  a value for is_active is stored active, since the column's DEFAULT is true.
\<close>

theorem automation_rules_config_unvalidated:
  assumes "insert_row ''automation_rules'' now fresh
             (pre @ (''trigger_config'', Some (VJson j)) # post) = Inr r"
  shows "insert_row ''automation_rules'' now fresh
             (pre @ (''trigger_config'', Some (VJson j')) # post) =
           Inr (r(''trigger_config'' \<mapsto> VJson j')) \<and>
         (''is_active'' \<in> fst ` set (pre @ post) \<or> r ''is_active'' = Some (VBool True))"
proof -
  let ?cols = "table_columns automation_rules"
  let ?d = "defaults_row ?cols now fresh"
  from assms obtain vs where
    vs: "validate_sets ?cols (pre @ (''trigger_config'', Some (VJson j)) # post) = Inr vs"
    and r: "r = apply_sets vs ?d" and ok: "check_row ?cols r = None"
    by (auto simp: insert_row_def lookup_table_simps Let_def split: sum.splits option.splits)
  from validate_sets_swap_json(2) [OF vs, of j'] obtain pre' post' where
    p: "vs = pre' @ (''trigger_config'', Some (VJson j)) # post'"
      "''trigger_config'' \<notin> fst ` set post'"
      "validate_sets ?cols (pre @ (''trigger_config'', Some (VJson j')) # post) =
         Inr (pre' @ (''trigger_config'', Some (VJson j')) # post')"
    by blast
  have new: "apply_sets (pre' @ (''trigger_config'', Some (VJson j')) # post') ?d =
      r(''trigger_config'' \<mapsto> VJson j')"
    using apply_sets_swap_json [OF p(2), of pre' j' ?d j] by (simp only: r p(1))
  have "r ''trigger_config'' = Some (VJson j)"
    using apply_sets_stored_json [OF p(2), of pre' j ?d] by (simp only: r p(1))
  then have "check_row ?cols (r(''trigger_config'' \<mapsto> VJson j')) = check_row ?cols r"
    by (rule check_row_json)
  with ok have ok': "check_row ?cols (r(''trigger_config'' \<mapsto> VJson j')) = None"
    by simp
  have first: "insert_row ''automation_rules'' now fresh
      (pre @ (''trigger_config'', Some (VJson j')) # post) =
        Inr (r(''trigger_config'' \<mapsto> VJson j'))"
    by (simp add: insert_row_def lookup_table_simps p(3) new ok')
  have second: "r ''is_active'' = Some (VBool True)"
    if "''is_active'' \<notin> fst ` set (pre @ post)"
  proof -
    have "map fst vs = map fst (pre @ (''trigger_config'', Some (VJson j)) # post)"
      using vs by (rule validate_sets_keys)
    then have "fst ` set vs = fst ` set (pre @ (''trigger_config'', Some (VJson j)) # post)"
      by (metis set_map)
    with that have "''is_active'' \<notin> fst ` set vs" by auto
    then have "apply_sets vs ?d ''is_active'' = ?d ''is_active''"
      by (rule apply_sets_untouched)
    then show ?thesis
      by (simp only: r automation_rules_is_active_default)
  qed
  from first second show ?thesis by blast
qed

theorem automation_rules_config_unvalidated_witness:
  "insert_row ''automation_rules'' 100 ''rule-1'' (example_rule_insert example_config) =
     Inr (example_rule example_config) \<and>
   insert_row ''automation_rules'' 100 ''rule-1'' (example_rule_insert (JArr [])) =
     Inr ((example_rule example_config)(''trigger_config'' \<mapsto> VJson (JArr []))) \<and>
   example_rule example_config ''is_active'' = Some (VBool True)"
proof -
  let ?pre = "[(''name'', Some (VString ''thank likers'')),
      (''trigger_type'', Some (VString ''engagement_based''))]"
  let ?post = "[(''action_type'', Some (VString ''like'')),
      (''action_config'', Some empty_object),
      (''target_accounts'', Some (VJson (JArr [JStr ''account-1''])))]"
  have h: "insert_row ''automation_rules'' 100 ''rule-1''
      (?pre @ (''trigger_config'', Some (VJson example_config)) # ?post) =
        Inr (example_rule example_config)"
    using example_rule_inserted [of example_config] by (simp add: example_rule_insert_def)
  from automation_rules_config_unvalidated [OF h, of "JArr []"] h
  show ?thesis by (simp add: example_rule_insert_def)
qed

text \<open>
  The claim as stated fails on the schema: an engagement_based rule whose configuration is
  the empty object, which names neither a metric nor a threshold, is accepted and stored
  with is_active true.
\<close>

theorem unvalidated_rule_is_active:
  "insert_row ''automation_rules'' 100 ''rule-1'' (example_rule_insert (JObj [])) =
     Inr (example_rule (JObj [])) \<and>
   example_rule (JObj []) ''trigger_type'' = Some (VString ''engagement_based'') \<and>
   example_rule (JObj []) ''trigger_config'' = Some (VJson (JObj [])) \<and>
   example_rule (JObj []) ''is_active'' = Some (VBool True)"
  using example_rule_inserted [of "JObj []"] by (simp add: example_rule_def)

section \<open>Properties of the account manager page\<close>

text \<open>A run: the server answers 500 to the DELETE of user 1, and the list loses user 1.\<close>

lemma deleteUser_server_error_example:
  "deleteUser
     [\<lparr>u_id = JsNumber 1, u_username = ''ann'', u_nickname = ''Ann'', u_platform = ''twitter''\<rparr>,
      \<lparr>u_id = JsNumber 2, u_username = ''bob'', u_nickname = ''Bob'', u_platform = ''tiktok''\<rparr>]
     (JsNumber 1) (Fulfilled 500)
     [\<lparr>u_id = JsNumber 1, u_username = ''ann'', u_nickname = ''Ann'', u_platform = ''twitter''\<rparr>,
      \<lparr>u_id = JsNumber 2, u_username = ''bob'', u_nickname = ''Bob'', u_platform = ''tiktok''\<rparr>] =
     [\<lparr>u_id = JsNumber 2, u_username = ''bob'', u_nickname = ''Bob'', u_platform = ''tiktok''\<rparr>]"
  by (simp add: deleteUser_def)

text \<open>
  Claim C9. Whenever the DELETE request completes with a response, whatever its HTTP
  status (so for a 4xx or 5xx as well), the new list is the rendered list without the
  entries whose id is the given one, and no entry of it has that id.
\<close>

theorem deleteUser_removes_on_any_status:
  "deleteUser rendered ident (Fulfilled http_status) current =
     filter (\<lambda>u. u_id u \<noteq> ident) rendered \<and>
   ident \<notin> u_id ` set (deleteUser rendered ident (Fulfilled http_status) current)"
  by (auto simp: deleteUser_def)

section \<open>Properties of the publish scheduler\<close>






lemma published_not_eligible: "status p = Published \<Longrightarrow> \<not> eligible now lease p"
  by (simp add: eligible_def due_def abandoned_def)

lemma scheduler_pass_length:
  "length (fst (scheduler_pass publish now lease ps ledger)) = length ps"
proof (induction ps arbitrary: ledger)
  case Nil
  show ?case by simp
next
  case (Cons p ps)
  obtain p' attempts where c: "claim_and_dispatch publish now lease p = (p', attempts)"
    by (cases "claim_and_dispatch publish now lease p")
  obtain ps' ledger' where
    r: "scheduler_pass publish now lease ps (ledger @ attempts) = (ps', ledger')"
    by (cases "scheduler_pass publish now lease ps (ledger @ attempts)")
  from Cons.IH [of "ledger @ attempts"] show ?case by (simp add: c r)
qed

lemma scheduler_pass_append:
  "scheduler_pass publish now lease (xs @ ys) ledger =
     (case scheduler_pass publish now lease xs ledger of
        (xs', ledger') \<Rightarrow>
          (case scheduler_pass publish now lease ys ledger' of
             (ys', ledger'') \<Rightarrow> (xs' @ ys', ledger'')))"
  by (induction xs arbitrary: ledger) (auto split: prod.splits)












text \<open>
  Claim C7. A post whose status is published is not selected, the claim-and-dispatch
  cycle returns it unchanged with no attempt, and in a scheduling pass over any store that
  holds it the post comes out as it went in and the ledger is the one the pass writes
  without it.
\<close>

theorem published_post_untouched:
  assumes "status p = Published"
  shows "\<not> eligible now lease p \<and>
         claim_and_dispatch publish now lease p = (p, []) \<and>
         fst (scheduler_pass publish now lease (before @ p # after) ledger) ! length before = p \<and>
         snd (scheduler_pass publish now lease (before @ p # after) ledger) =
           snd (scheduler_pass publish now lease (before @ after) ledger)"
proof -
  have ne: "\<not> eligible now lease p"
    using assms by (rule published_not_eligible)
  then have cd: "claim_and_dispatch publish now lease p = (p, [])"
    by (simp add: claim_and_dispatch_def)
  obtain xs l1 where x: "scheduler_pass publish now lease before ledger = (xs, l1)"
    by (cases "scheduler_pass publish now lease before ledger")
  obtain ys l2 where y: "scheduler_pass publish now lease after l1 = (ys, l2)"
    by (cases "scheduler_pass publish now lease after l1")
  have len: "length xs = length before"
    using scheduler_pass_length [of publish now lease before ledger] by (simp add: x)
  have "scheduler_pass publish now lease (before @ p # after) ledger = (xs @ p # ys, l2)"
    by (simp add: scheduler_pass_append x y cd)
  moreover have "scheduler_pass publish now lease (before @ after) ledger = (xs @ ys, l2)"
    by (simp add: scheduler_pass_append x y)
  ultimately show ?thesis using ne cd len by (simp add: nth_append)
qed

theorem published_post_untouched_witness:
  "status example_published_post = Published \<and>
   scheduler_pass example_publish 1000 60 [example_scheduled_post, example_published_post] [] =
     (fst (claim_and_dispatch example_publish 1000 60 example_scheduled_post) #
        [example_published_post],
      snd (claim_and_dispatch example_publish 1000 60 example_scheduled_post))"
proof -
  have s: "status example_published_post = Published"
    by (simp add: example_published_post_def)
  from published_post_untouched [OF s, of 1000 60 example_publish] s
  show ?thesis by (simp split: prod.splits)
qed

section \<open>Properties of the rule engine\<close>

lemma evaluate_engagement_step:
  assumes "rule_active rule" "trigger_type rule = engagement_based"
    and "evaluate_engagement rule (observed_at, metric) = (rule', fired)"
  shows "fired = (threshold rule \<le> metric \<and> armed rule)"
    and "rule_active rule'" and "trigger_type rule' = engagement_based"
    and "threshold rule' = threshold rule"
    and "armed rule' = (metric < threshold rule)"
    and "execution_count rule' = execution_count rule + (if fired then 1 else 0)"
  using assms by (auto simp: evaluate_engagement_def split: if_splits)

lemma upward_crossing_Cons:
  "upward_crossing T b (v # vs) 0 = (T \<le> v \<and> b)"
  "upward_crossing T b (v # vs) (Suc k) = upward_crossing T (v < T) vs k"
  by (auto simp: upward_crossing_def nth_Cons split: nat.splits)

lemma evaluate_all_fires:
  assumes "rule_active rule" "trigger_type rule = engagement_based"
    and "evaluate_all rule snapshots = (rule', fires)"
  shows "length fires = length snapshots \<and>
         (\<forall>i < length snapshots.
            fires ! i = upward_crossing (threshold rule) (armed rule) (map snd snapshots) i) \<and>
         execution_count rule' = execution_count rule + count_list fires True"
  using assms
proof (induction snapshots arbitrary: rule fires)
  case Nil
  then show ?case by simp
next
  case (Cons s rest)
  obtain observed_at metric where s: "s = (observed_at, metric)" by (cases s)
  obtain rule1 fired where e: "evaluate_engagement rule (observed_at, metric) = (rule1, fired)"
    by (cases "evaluate_engagement rule (observed_at, metric)")
  obtain fires1 where r: "evaluate_all rule1 rest = (rule', fires1)" and f: "fires = fired # fires1"
    using Cons.prems(3) e by (auto simp: s split: prod.splits)
  note st = evaluate_engagement_step [OF Cons.prems(1,2) e]
  from Cons.IH [OF st(2,3) r] have
    len: "length fires1 = length rest"
    and ih: "\<And>i. i < length rest \<Longrightarrow>
      fires1 ! i = upward_crossing (threshold rule) (metric < threshold rule) (map snd rest) i"
    and cnt: "execution_count rule' = execution_count rule1 + count_list fires1 True"
    by (simp_all add: st(4,5))
  have "fires ! i = upward_crossing (threshold rule) (armed rule) (map snd (s # rest)) i"
    if "i < length (s # rest)" for i
  proof (cases i)
    case 0
    then show ?thesis by (simp add: f s upward_crossing_Cons st(1))
  next
    case (Suc k)
    with that have "k < length rest" by simp
    from ih [OF this] show ?thesis by (simp add: Suc f s upward_crossing_Cons)
  qed
  moreover have "execution_count rule' = execution_count rule + count_list fires True"
    using cnt st(6) by (simp add: f)
  ultimately show ?case using len f by simp
qed

lemma example_run:
  "evaluate_all example_rule_state [(1, 40), (2, 120), (3, 150), (4, 100), (5, 99), (6, 100)] =
     (example_rule_state\<lparr>armed := False, last_executed := Some 6, execution_count := 2\<rparr>,
      [False, True, False, False, False, True])"
  by (simp add: example_rule_state_def evaluate_engagement_def)

text \<open>
  Claim C4. An active engagement_based rule with threshold T, polled on a sequence of
  metric snapshots, fires on a snapshot exactly when that snapshot is an upward crossing
  of T (at or above T, the one before below T); its execution count grows by the number
  of firings; and between any two firings some snapshot lies below T, so the rule does not
  fire again while the metric stays at or above T.
\<close>

theorem engagement_fires_once_per_crossing:
  assumes "rule_active rule" and "trigger_type rule = engagement_based"
    and "evaluate_all rule snapshots = (rule', fires)"
  shows "length fires = length snapshots \<and>
         (\<forall>i < length snapshots.
            fires ! i = upward_crossing (threshold rule) (armed rule) (map snd snapshots) i) \<and>
         execution_count rule' = execution_count rule + count_list fires True \<and>
         (\<forall>i j. i < j \<and> j < length snapshots \<and> fires ! i \<and> fires ! j \<longrightarrow>
            (\<exists>k. i < k \<and> k < j \<and> snd (snapshots ! k) < threshold rule))"
proof -
  note main = evaluate_all_fires [OF assms]
  have "\<exists>k. i < k \<and> k < j \<and> snd (snapshots ! k) < threshold rule"
    if ij: "i < j" "j < length snapshots" and fi: "fires ! i" and fj: "fires ! j" for i j
  proof -
    from ij have i: "i < length snapshots" by simp
    from main i fi have hi: "threshold rule \<le> snd (snapshots ! i)"
      by (auto simp: upward_crossing_def)
    from main ij fj have lo: "snd (snapshots ! (j - 1)) < threshold rule"
      by (auto simp: upward_crossing_def split: if_splits)
    from hi lo have "j - 1 \<noteq> i" by auto
    with ij have "i < j - 1" "j - 1 < j" by simp_all
    with lo show ?thesis by blast
  qed
  with main show ?thesis by blast
qed

theorem engagement_fires_once_per_crossing_witness:
  "rule_active example_rule_state \<and> trigger_type example_rule_state = engagement_based \<and>
   evaluate_all example_rule_state [(1, 40), (2, 120), (3, 150), (4, 100), (5, 99), (6, 100)] =
     (example_rule_state\<lparr>armed := False, last_executed := Some 6, execution_count := 2\<rparr>,
      [False, True, False, False, False, True]) \<and>
   length [False, True, False, False, False, True] = length [(1::int, 40::int), (2, 120), (3, 150), (4, 100), (5, 99), (6, 100)] \<and>
   execution_count (example_rule_state\<lparr>armed := False, last_executed := Some 6, execution_count := 2\<rparr>) =
     execution_count example_rule_state + count_list [False, True, False, False, False, True] True"
proof -
  have a: "rule_active example_rule_state" "trigger_type example_rule_state = engagement_based"
    by (simp_all add: example_rule_state_def)
  from engagement_fires_once_per_crossing [OF a example_run] a example_run
  show ?thesis by simp
qed

end
